theory Spec2Isabelle
  imports Main "HOL-Library.Sublist"
begin

section \<open>The remove-format button of the editor toolbar\<close>

text \<open>
  A model of the script of \<^verbatim>\<open>ts/editor/editor-toolbar/RemoveFormatButton.svelte\<close>.
  The registry \<^verbatim>\<open>removeFormats\<close> is a store holding an array of objects; the derived
  array \<^verbatim>\<open>showFormats\<close> holds the same objects, and \<^verbatim>\<open>onItemClick\<close> mutates them in
  place. Objects are therefore kept in an explicit store, and arrays hold references.
\<close>

subsection \<open>DOM elements and the built-in matcher\<close>

text \<open>
  The three strings the matcher reads from an element: \<^verbatim>\<open>element.tagName\<close>,
  \<^verbatim>\<open>element.className\<close> and \<^verbatim>\<open>element.style.cssText\<close>.
\<close>

record Element =
  tagName :: string
  className :: string
  cssText :: string

text \<open>
  The matcher returns nothing; its only effect is the calls it makes on its second
  argument. The model returns the list of those calls.
\<close>

datatype MatchCall = MatchRemove

definition matcher :: "Element \<Rightarrow> MatchCall list" where
  "matcher element =
     (if tagName element = ''SPAN'' \<and> length (className element) = 0
         \<and> length (cssText element) = 0
      then [MatchRemove] else [])"

text \<open>\<^verbatim>\<open>document.createElement("span")\<close>: a fresh span without class or style.\<close>

definition surroundElement :: Element where
  "surroundElement = \<lparr>tagName = ''SPAN'', className = [], cssText = []\<rparr>"

record SurroundFormat =
  sf_matcher :: "Element \<Rightarrow> MatchCall list"
  sf_surroundElement :: Element

definition key_const :: string where
  "key_const = ''simple spans''"

definition format_const :: SurroundFormat where
  "format_const = \<lparr>sf_matcher = matcher, sf_surroundElement = surroundElement\<rparr>"

subsection \<open>Registry entries and the component state\<close>

text \<open>
  An entry of the registry, with the four fields of the object literal passed to
  \<^verbatim>\<open>removeFormats.update\<close>. The field \<^verbatim>\<open>show\<close> is written \<open>show_f\<close>.
\<close>

record RemoveFormat =
  key :: string
  name :: string
  show_f :: bool
  active :: bool

type_synonym ref = nat

text \<open>
  The state: the object store (\<open>heap\<close>, with \<open>nextRef\<close> the next unused reference), the
  value of the store \<^verbatim>\<open>removeFormats\<close>, the component's variables \<^verbatim>\<open>activeKeys\<close>,
  \<^verbatim>\<open>inactiveKeys\<close>, \<^verbatim>\<open>showFormats\<close> and \<^verbatim>\<open>disabled\<close> (\<open>None\<close> while undefined), whether
  the store \<^verbatim>\<open>removeFormats\<close> has been set since the reactive declarations last ran
  (\<open>dirty\<close>), the current value of the store \<^verbatim>\<open>surrounder.active\<close> and whether the
  component is subscribed to it, the formats registered with the surrounder, and the
  arguments of every call of \<^verbatim>\<open>surrounder.remove\<close> so far.
\<close>

record component =
  heap :: "ref \<Rightarrow> RemoveFormat"
  nextRef :: ref
  removeFormats :: "ref list"
  activeKeys :: "string list"
  inactiveKeys :: "string list"
  showFormats :: "ref list"
  dirty :: bool
  disabled :: "bool option"
  surrounderActive :: bool
  subscribed :: bool
  surrounderFormats :: "(string \<times> SurroundFormat) list"
  removeCalls :: "(string list \<times> string list) list"

subsection \<open>Reactive declarations and the store\<close>

text \<open>
  The three reactive declarations of the component:
  \<^verbatim>\<open>$: activeKeys = $removeFormats.filter((format) => format.active).map((format) => format.key)\<close>,
  the same with \<^verbatim>\<open>!format.active\<close> for \<^verbatim>\<open>inactiveKeys\<close>, and
  \<^verbatim>\<open>$: showFormats = $removeFormats.filter((format) => format.show)\<close>.
\<close>

definition reactive :: "component \<Rightarrow> component" where
  "reactive s = s\<lparr>
     activeKeys := map (\<lambda>r. key (heap s r))
                     (filter (\<lambda>r. active (heap s r)) (removeFormats s)),
     inactiveKeys := map (\<lambda>r. key (heap s r))
                       (filter (\<lambda>r. \<not> active (heap s r)) (removeFormats s)),
     showFormats := filter (\<lambda>r. show_f (heap s r)) (removeFormats s)\<rparr>"

text \<open>
  Setting the store \<^verbatim>\<open>removeFormats\<close> to an array notifies the component, which takes
  the new value and schedules an update. The reactive declarations do not run at that
  moment: the variables keep their values until the update is flushed.
\<close>

definition set_removeFormats :: "ref list \<Rightarrow> component \<Rightarrow> component" where
  "set_removeFormats formats s = s\<lparr>removeFormats := formats, dirty := True\<rparr>"

text \<open>
  The flush of a scheduled update, which the framework runs once the handler that set
  the store has returned: the reactive declarations run when the store has been set
  since their last run.
\<close>

definition flush :: "component \<Rightarrow> component" where
  "flush s = (if dirty s then (reactive s)\<lparr>dirty := False\<rparr> else s)"

text \<open>
  Initialisation of the component. The update
  \<^verbatim>\<open>removeFormats.update((formats) => formats.concat({key, name: key, show: false, active: true}))\<close>
  allocates a new object and sets the store to the array with a reference to it
  appended; \<^verbatim>\<open>let disabled: boolean;\<close> leaves \<^verbatim>\<open>disabled\<close> undefined. The reactive
  declarations run for the first time at the end of the initialisation, and the new
  component is not subscribed to \<^verbatim>\<open>surrounder.active\<close> before it mounts.
\<close>

definition builtinEntry :: RemoveFormat where
  "builtinEntry = \<lparr>key = key_const, name = key_const, show_f = False, active = True\<rparr>"

definition init :: "component \<Rightarrow> component" where
  "init s =
     (reactive
        (set_removeFormats (removeFormats s @ [nextRef s])
           (s\<lparr>heap := (heap s)(nextRef s := builtinEntry), nextRef := Suc (nextRef s),
              disabled := None, subscribed := False\<rparr>)))\<lparr>dirty := False\<rparr>"

text \<open>
  Modelled from the spec: the registration done by the other format-providing controls,
  whose code is not part of the sources at hand (\<open>register(entry)\<close> appends the entry).
  It is the store update above with the entry as a parameter.
\<close>

definition register :: "RemoveFormat \<Rightarrow> component \<Rightarrow> component" where
  "register entry s =
     set_removeFormats (removeFormats s @ [nextRef s])
       (s\<lparr>heap := (heap s)(nextRef s := entry), nextRef := Suc (nextRef s)\<rparr>)"

subsection \<open>The handlers\<close>

text \<open>\<^verbatim>\<open>surrounder.remove(activeKeys, inactiveKeys)\<close>: the call is recorded.\<close>

definition remove :: "component \<Rightarrow> component" where
  "remove s = s\<lparr>removeCalls := removeCalls s @ [(activeKeys s, inactiveKeys s)]\<rparr>"

text \<open>\<^verbatim>\<open>for (const format of showFormats) { format.active = false; }\<close>\<close>

primrec deactivateAll :: "ref list \<Rightarrow> (ref \<Rightarrow> RemoveFormat) \<Rightarrow> (ref \<Rightarrow> RemoveFormat)" where
  "deactivateAll [] h = h"
| "deactivateAll (r # rs) h = deactivateAll rs (h(r := (h r)\<lparr>active := False\<rparr>))"

text \<open>
  \<^verbatim>\<open>onItemClick(event, format)\<close>; the first argument of the model is the value of
  \<^verbatim>\<open>altPressed(event)\<close>. The last statement, \<^verbatim>\<open>$removeFormats = $removeFormats\<close>, sets the
  store to the array it holds.
\<close>

definition onItemClick :: "bool \<Rightarrow> ref \<Rightarrow> component \<Rightarrow> component" where
  "onItemClick alt format s =
     (let h1 = (if alt then deactivateAll (showFormats s) (heap s) else heap s);
          h2 = h1(format := (h1 format)\<lparr>active := \<not> active (h1 format)\<rparr>)
      in set_removeFormats (removeFormats s) (s\<lparr>heap := h2\<rparr>))"

text \<open>The subscriber of \<^verbatim>\<open>surrounder.active\<close>: \<^verbatim>\<open>(value) => (disabled = !value)\<close>.\<close>

definition onActive :: "bool \<Rightarrow> component \<Rightarrow> component" where
  "onActive v s = s\<lparr>disabled := Some (\<not> v)\<rparr>"

text \<open>
  The function passed to \<^verbatim>\<open>onMount\<close>. \<^verbatim>\<open>surrounder.active.subscribe(...)\<close> calls the
  subscriber at once with the current value of the store and again at each emission;
  \<^verbatim>\<open>surrounder.registerFormat(key, format)\<close> registers the matcher and the surround
  element under the key.
\<close>

definition onMount :: "component \<Rightarrow> component" where
  "onMount s =
     (onActive (surrounderActive s) s)\<lparr>subscribed := True,
        surrounderFormats := surrounderFormats s @ [(key_const, format_const)]\<rparr>"

text \<open>
  An emission of \<^verbatim>\<open>surrounder.active\<close>: the store takes the value and calls its
  subscribers, this component among them once it has subscribed.
\<close>

definition emit :: "bool \<Rightarrow> component \<Rightarrow> component" where
  "emit v s =
     (if subscribed s then onActive v (s\<lparr>surrounderActive := v\<rparr>)
      else s\<lparr>surrounderActive := v\<rparr>)"

subsection \<open>Sequences of events\<close>

text \<open>
  What can happen to an initialised component, one event after the other: a registration
  by another control, a click on an entry of the menu, a call of \<open>remove\<close>, an emission
  of \<^verbatim>\<open>surrounder.active\<close>, the mounting of the component, and the flush of a scheduled
  update.
\<close>

datatype event =
  Register RemoveFormat
  | ItemClick bool ref
  | Remove
  | Active bool
  | Mount
  | Flush

fun step :: "event \<Rightarrow> component \<Rightarrow> component" where
  "step (Register entry) s = register entry s"
| "step (ItemClick alt format) s = onItemClick alt format s"
| "step Remove s = remove s"
| "step (Active v) s = emit v s"
| "step Mount s = onMount s"
| "step Flush s = flush s"

fun run :: "event list \<Rightarrow> component \<Rightarrow> component" where
  "run [] s = s"
| "run (e # es) s = run es (step e s)"

text \<open>The values emitted by \<^verbatim>\<open>surrounder.active\<close> in a sequence of events, in order.\<close>

fun emitted :: "event list \<Rightarrow> bool list" where
  "emitted [] = []"
| "emitted (Active v # es) = v # emitted es"
| "emitted (_ # es) = emitted es"

text \<open>
  The dropdown menu lists the entries of \<^verbatim>\<open>showFormats\<close> only, so a click handled by
  \<^verbatim>\<open>onItemClick\<close> comes with one of them. \<open>offered es s\<close> holds when every click of
  \<open>es\<close>, run from \<open>s\<close>, is on an entry listed at that moment.
\<close>

fun offered :: "event list \<Rightarrow> component \<Rightarrow> bool" where
  "offered [] s = True"
| "offered (ItemClick alt format # es) s =
     (format \<in> set (showFormats s) \<and> offered es (onItemClick alt format s))"
| "offered (e # es) s = offered es (step e s)"

subsection \<open>Well-formed states\<close>

text \<open>The entries of the registry, in order.\<close>

definition entries :: "component \<Rightarrow> RemoveFormat list" where
  "entries s = map (heap s) (removeFormats s)"

text \<open>Every reference held by the registry is allocated.\<close>

definition allocated :: "component \<Rightarrow> bool" where
  "allocated s \<longleftrightarrow> list_all (\<lambda>r. r < nextRef s) (removeFormats s)"

text \<open>The component's variables hold what the reactive declarations compute.\<close>

definition synced :: "component \<Rightarrow> bool" where
  "synced s \<longleftrightarrow>
     activeKeys s = map key (filter active (entries s))
     \<and> inactiveKeys s = map key (filter (\<lambda>e. \<not> active e) (entries s))
     \<and> showFormats s = filter (\<lambda>r. show_f (heap s r)) (removeFormats s)"

text \<open>Unless an update is pending, the variables are up to date.\<close>

definition settled :: "component \<Rightarrow> bool" where
  "settled s \<longleftrightarrow> dirty s \<or> synced s"

subsection \<open>Example states\<close>

text \<open>
  A state with an empty registry and nothing allocated; the surrounder has no enabled
  input.
\<close>

definition emptyState :: component where
  "emptyState = \<lparr>heap = (\<lambda>_. \<lparr>key = [], name = [], show_f = False, active = False\<rparr>),
     nextRef = 0, removeFormats = [], activeKeys = [], inactiveKeys = [],
     showFormats = [], dirty = False, disabled = None, surrounderActive = False,
     subscribed = False, surrounderFormats = [], removeCalls = []\<rparr>"

definition entry :: "string \<Rightarrow> bool \<Rightarrow> bool \<Rightarrow> RemoveFormat" where
  "entry k sh act = \<lparr>key = k, name = k, show_f = sh, active = act\<rparr>"

text \<open>Visible entries A (inactive) and B (active), at references 0 and 1.\<close>

definition stateAB :: component where
  "stateAB = run [Register (entry ''A'' True False), Register (entry ''B'' True True), Flush]
               emptyState"


text \<open>
  The built-in entry followed by two visible entries with distinct keys, the second of
  which is then switched off by a plain click.
\<close>

definition stateBoldItalic :: component where
  "stateBoldItalic = flush (run [Register (entry ''bold'' True False),
       Register (entry ''italic'' True True), Flush, ItemClick False 2] (init emptyState))"

text \<open>The built-in entry followed by two visible entries that share the key \<open>bold\<close>.\<close>

definition stateBoldBold :: component where
  "stateBoldBold = flush (run [Register (entry ''bold'' True True),
       Register (entry ''bold'' True False)] (init emptyState))"

section \<open>Basic facts about the operations\<close>

lemma deactivateAll_apply:
  "deactivateAll rs h r = (if r \<in> set rs then (h r)\<lparr>active := False\<rparr> else h r)"
  by (induction rs arbitrary: h) auto

lemma reactive_fields [simp]:
  "heap (reactive s) = heap s"
  "nextRef (reactive s) = nextRef s"
  "removeFormats (reactive s) = removeFormats s"
  "dirty (reactive s) = dirty s"
  "disabled (reactive s) = disabled s"
  "surrounderActive (reactive s) = surrounderActive s"
  "subscribed (reactive s) = subscribed s"
  "surrounderFormats (reactive s) = surrounderFormats s"
  "removeCalls (reactive s) = removeCalls s"
  by (simp_all add: reactive_def)

lemma flush_fields [simp]:
  "heap (flush s) = heap s"
  "nextRef (flush s) = nextRef s"
  "removeFormats (flush s) = removeFormats s"
  "dirty (flush s) = False"
  "disabled (flush s) = disabled s"
  "surrounderActive (flush s) = surrounderActive s"
  "subscribed (flush s) = subscribed s"
  "surrounderFormats (flush s) = surrounderFormats s"
  "removeCalls (flush s) = removeCalls s"
  by (simp_all add: flush_def)

lemma init_fields [simp]:
  "removeFormats (init s) = removeFormats s @ [nextRef s]"
  "heap (init s) = (heap s)(nextRef s := builtinEntry)"
  "nextRef (init s) = Suc (nextRef s)"
  "dirty (init s) = False"
  "disabled (init s) = None"
  "surrounderActive (init s) = surrounderActive s"
  "subscribed (init s) = False"
  "surrounderFormats (init s) = surrounderFormats s"
  "removeCalls (init s) = removeCalls s"
  by (simp_all add: init_def set_removeFormats_def)

lemma register_fields [simp]:
  "removeFormats (register e s) = removeFormats s @ [nextRef s]"
  "heap (register e s) = (heap s)(nextRef s := e)"
  "nextRef (register e s) = Suc (nextRef s)"
  "showFormats (register e s) = showFormats s"
  "dirty (register e s) = True"
  "disabled (register e s) = disabled s"
  "surrounderActive (register e s) = surrounderActive s"
  "subscribed (register e s) = subscribed s"
  "surrounderFormats (register e s) = surrounderFormats s"
  "removeCalls (register e s) = removeCalls s"
  by (simp_all add: register_def set_removeFormats_def)

lemma onItemClick_fields [simp]:
  "removeFormats (onItemClick alt f s) = removeFormats s"
  "nextRef (onItemClick alt f s) = nextRef s"
  "showFormats (onItemClick alt f s) = showFormats s"
  "dirty (onItemClick alt f s) = True"
  "disabled (onItemClick alt f s) = disabled s"
  "surrounderActive (onItemClick alt f s) = surrounderActive s"
  "subscribed (onItemClick alt f s) = subscribed s"
  "surrounderFormats (onItemClick alt f s) = surrounderFormats s"
  "removeCalls (onItemClick alt f s) = removeCalls s"
  by (simp_all add: onItemClick_def Let_def set_removeFormats_def)

lemma remove_fields [simp]:
  "heap (remove s) = heap s"
  "nextRef (remove s) = nextRef s"
  "removeFormats (remove s) = removeFormats s"
  "showFormats (remove s) = showFormats s"
  "dirty (remove s) = dirty s"
  "disabled (remove s) = disabled s"
  "surrounderActive (remove s) = surrounderActive s"
  "subscribed (remove s) = subscribed s"
  by (simp_all add: remove_def)

lemma emit_fields [simp]:
  "heap (emit v s) = heap s"
  "nextRef (emit v s) = nextRef s"
  "removeFormats (emit v s) = removeFormats s"
  "showFormats (emit v s) = showFormats s"
  "dirty (emit v s) = dirty s"
  "surrounderActive (emit v s) = v"
  "subscribed (emit v s) = subscribed s"
  "disabled (emit v s) = (if subscribed s then Some (\<not> v) else disabled s)"
  by (simp_all add: emit_def onActive_def)

lemma onMount_fields [simp]:
  "heap (onMount s) = heap s"
  "nextRef (onMount s) = nextRef s"
  "removeFormats (onMount s) = removeFormats s"
  "showFormats (onMount s) = showFormats s"
  "dirty (onMount s) = dirty s"
  "surrounderActive (onMount s) = surrounderActive s"
  "subscribed (onMount s) = True"
  "disabled (onMount s) = Some (\<not> surrounderActive s)"
  by (simp_all add: onMount_def onActive_def)

text \<open>
  The object store after a click, object by object: the loop and the flip together.
\<close>

lemma heap_onItemClick:
  "heap (onItemClick alt f s) r =
     (if r = f then
        (heap s r)\<lparr>active := (if alt \<and> f \<in> set (showFormats s) then True
                               else \<not> active (heap s f))\<rparr>
      else if alt \<and> r \<in> set (showFormats s) then (heap s r)\<lparr>active := False\<rparr>
      else heap s r)"
  by (simp add: onItemClick_def Let_def set_removeFormats_def deactivateAll_apply)

subsection \<open>The variables follow the store at each flush\<close>

lemma synced_reactive: "synced (reactive s)"
  by (simp add: synced_def entries_def reactive_def filter_map comp_def)

lemma synced_dirty_update: "synced (s\<lparr>dirty := d\<rparr>) = synced s"
  by (simp add: synced_def entries_def)

lemma synced_init: "synced (init s)"
  by (simp add: init_def synced_dirty_update synced_reactive)

lemma settled_init: "settled (init s)"
  by (simp add: settled_def synced_init)

lemma settled_step: "settled s \<Longrightarrow> settled (step e s)"
proof (cases e)
  case Flush
  assume "settled s"
  then show ?thesis
    using Flush by (auto simp: settled_def flush_def synced_dirty_update synced_reactive)
next
  case Remove
  assume "settled s"
  then show ?thesis
    using Remove by (auto simp: settled_def synced_def remove_def entries_def)
next
  case (Active v)
  assume "settled s"
  then show ?thesis
    using Active by (auto simp: settled_def synced_def emit_def onActive_def entries_def)
next
  case Mount
  assume "settled s"
  then show ?thesis
    using Mount by (auto simp: settled_def synced_def onMount_def onActive_def entries_def)
qed (simp_all add: settled_def)

lemma settled_run: "settled s \<Longrightarrow> settled (run es s)"
  by (induction es arbitrary: s) (simp_all add: settled_step)

lemma settled_reachable: "settled (run es (init s0))"
  by (simp add: settled_run settled_init)

lemma synced_flush: "settled s \<Longrightarrow> synced (flush s)"
  by (auto simp: settled_def flush_def synced_dirty_update synced_reactive)


lemma entries_flush [simp]: "entries (flush s) = entries s"
  by (simp add: entries_def)

lemma synced_showFormats:
  "synced s \<Longrightarrow> r \<in> set (showFormats s) \<longleftrightarrow> r \<in> set (removeFormats s) \<and> show_f (heap s r)"
  by (simp add: synced_def)

lemma allocatedD: "allocated s \<Longrightarrow> r \<in> set (removeFormats s) \<Longrightarrow> r < nextRef s"
  by (simp add: allocated_def list_all_iff)

subsection \<open>The example states\<close>


lemma stateAB_simps:
  "removeFormats stateAB = [0, 1]"
  "heap stateAB 0 = entry ''A'' True False"
  "heap stateAB (Suc 0) = entry ''B'' True True"
  by (simp_all add: stateAB_def emptyState_def)



lemma stateBoldItalic_simps:
  "map key (entries stateBoldItalic) = [''simple spans'', ''bold'', ''italic'']"
  "activeKeys stateBoldItalic = [''simple spans'']"
  "inactiveKeys stateBoldItalic = [''bold'', ''italic'']"
  by (simp_all add: stateBoldItalic_def init_def register_def set_removeFormats_def reactive_def
      flush_def emptyState_def entry_def builtinEntry_def key_const_def onItemClick_def
      entries_def)

subsection \<open>Lists of keys\<close>

lemma disjoint_keys:
  "distinct (map key xs) \<Longrightarrow>
     set (map key (filter active xs)) \<inter> set (map key (filter (\<lambda>e. \<not> active e) xs)) = {}"
  by (auto simp: distinct_map dest: inj_onD)

lemma key_in_active_iff:
  "distinct (map key xs) \<Longrightarrow> e \<in> set xs \<Longrightarrow>
     key e \<in> set (map key (filter active xs)) \<longleftrightarrow> active e"
  by (auto simp: distinct_map dest: inj_onD)

lemma key_in_inactive_iff:
  "distinct (map key xs) \<Longrightarrow> e \<in> set xs \<Longrightarrow>
     key e \<in> set (map key (filter (\<lambda>e. \<not> active e) xs)) \<longleftrightarrow> \<not> active e"
  by (auto simp: distinct_map dest: inj_onD)

lemma length_filter_both:
  "length (filter P xs) + length (filter (\<lambda>x. \<not> P x) xs) = length xs"
  by (induction xs) simp_all

section \<open>The built-in matcher\<close>

text \<open>
  Claim C1. The matcher calls \<^verbatim>\<open>match.remove()\<close> if and only if the element's tag name
  is SPAN, its class name is empty and the text of its inline style is empty; for every
  other element it makes no call at all.
\<close>

theorem matcher_remove_iff:
  "(matcher e = [MatchRemove]
      \<longleftrightarrow> (tagName e = ''SPAN'' \<and> className e = [] \<and> cssText e = []))
   \<and> (matcher e = []
      \<longleftrightarrow> \<not> (tagName e = ''SPAN'' \<and> className e = [] \<and> cssText e = []))"
  by (simp add: matcher_def)

section \<open>Clicks on an entry of the menu\<close>






text \<open>
  Claim C4. Without the modifier, \<open>onItemClick\<close> flips the \<open>active\<close> flag of the clicked
  entry and leaves every other object, hence every other registered entry, as it was.
\<close>

theorem onItemClick_plain:
  "active (heap (onItemClick False format s) format) = (\<not> active (heap s format))
   \<and> (\<forall>r. r \<noteq> format \<longrightarrow> heap (onItemClick False format s) r = heap s r)
   \<and> key (heap (onItemClick False format s) format) = key (heap s format)
   \<and> name (heap (onItemClick False format s) format) = name (heap s format)
   \<and> show_f (heap (onItemClick False format s) format) = show_f (heap s format)
   \<and> removeFormats (onItemClick False format s) = removeFormats s"
  by (simp add: heap_onItemClick)

text \<open>
  The example of the specification: with visible entries A (inactive) and B (active), a
  plain click on A gives A active and B active.
\<close>

theorem onItemClick_plain_witness:
  "map (\<lambda>r. (key (heap stateAB r), active (heap stateAB r))) (removeFormats stateAB)
     = [(''A'', False), (''B'', True)]
   \<and> map (\<lambda>r. (key (heap (onItemClick False 0 stateAB) r),
                active (heap (onItemClick False 0 stateAB) r)))
       (removeFormats (onItemClick False 0 stateAB))
     = [(''A'', True), (''B'', True)]"
  using onItemClick_plain [of 0 stateAB]
  by (simp add: stateAB_simps entry_def)

text \<open>
  Claim C10. Whatever the state, the clicked entry and the modifier, \<open>onItemClick\<close>
  changes at most \<open>active\<close> flags: the registry holds the same references in the same
  order, every object keeps its \<open>key\<close>, \<open>name\<close> and \<open>show\<close>, and the formats registered
  with the surrounder, which carry the matcher and the surround element, are the same.
  The component's variables keep their values until the next flush.
\<close>

theorem onItemClick_frame:
  "removeFormats (onItemClick alt format s) = removeFormats s
   \<and> (\<forall>r. heap (onItemClick alt format s) r
            = (heap s r)\<lparr>active := active (heap (onItemClick alt format s) r)\<rparr>)
   \<and> (\<forall>r. key (heap (onItemClick alt format s) r) = key (heap s r)
          \<and> name (heap (onItemClick alt format s) r) = name (heap s r)
          \<and> show_f (heap (onItemClick alt format s) r) = show_f (heap s r))
   \<and> surrounderFormats (onItemClick alt format s) = surrounderFormats s
   \<and> nextRef (onItemClick alt format s) = nextRef s
   \<and> disabled (onItemClick alt format s) = disabled s
   \<and> removeCalls (onItemClick alt format s) = removeCalls s
   \<and> activeKeys (onItemClick alt format s) = activeKeys s
   \<and> inactiveKeys (onItemClick alt format s) = inactiveKeys s
   \<and> showFormats (onItemClick alt format s) = showFormats s"
  by (simp add: heap_onItemClick) (simp add: onItemClick_def Let_def set_removeFormats_def)

section \<open>The lists of keys\<close>

text \<open>
  Two entries that share a key, one active and one inactive: the key is in both lists.
\<close>

theorem keys_not_disjoint_counterexample:
  "activeKeys stateBoldBold = [''simple spans'', ''bold'']
   \<and> inactiveKeys stateBoldBold = [''bold'']
   \<and> set (activeKeys stateBoldBold) \<inter> set (inactiveKeys stateBoldBold) \<noteq> {}"
  by (simp add: stateBoldBold_def init_def register_def set_removeFormats_def reactive_def
      flush_def emptyState_def entry_def builtinEntry_def key_const_def)

text \<open>
  Claim C5, amended. After the initialisation and any sequence of registrations, clicks
  and other events, in whatever order and with flushes anywhere in between, the flush
  that follows leaves in \<open>activeKeys\<close> the keys of the registered entries with \<open>active\<close>
  true and in \<open>inactiveKeys\<close> those with \<open>active\<close> false, each in registration order;
  every entry contributes its key to one of the two lists, and their lengths add up to
  the length of the registry. When the keys of the registered entries are pairwise
  distinct, the two lists are disjoint and a key is in \<open>activeKeys\<close> exactly when its
  entry is active, in \<open>inactiveKeys\<close> exactly when it is not.
\<close>

theorem keys_partition_registry:
  "(let s = flush (run es (init s0)); ks = map key (entries s) in
      activeKeys s = map key (filter active (entries s))
    \<and> inactiveKeys s = map key (filter (\<lambda>e. \<not> active e) (entries s))
    \<and> length (activeKeys s) + length (inactiveKeys s) = length (removeFormats s)
    \<and> subseq (activeKeys s) ks \<and> subseq (inactiveKeys s) ks
    \<and> (\<forall>e \<in> set (entries s). (active e \<longrightarrow> key e \<in> set (activeKeys s))
                               \<and> (\<not> active e \<longrightarrow> key e \<in> set (inactiveKeys s)))
    \<and> (distinct ks \<longrightarrow>
          set (activeKeys s) \<inter> set (inactiveKeys s) = {}
          \<and> (\<forall>e \<in> set (entries s). (key e \<in> set (activeKeys s)) = active e
                                    \<and> (key e \<in> set (inactiveKeys s)) = (\<not> active e))))"
proof -
  define s where "s = flush (run es (init s0))"
  have sy: "synced s" unfolding s_def by (rule synced_flush [OF settled_reachable])
  have a: "activeKeys s = map key (filter active (entries s))"
    and i: "inactiveKeys s = map key (filter (\<lambda>e. \<not> active e) (entries s))"
    using sy by (simp_all add: synced_def)
  have len: "length (activeKeys s) + length (inactiveKeys s) = length (removeFormats s)"
    using length_filter_both [of active "entries s"] by (simp add: a i entries_def)
  have sub: "subseq (activeKeys s) (map key (entries s))"
    "subseq (inactiveKeys s) (map key (entries s))"
    by (simp_all add: a i subseq_map)
  have mem: "\<forall>e \<in> set (entries s). (active e \<longrightarrow> key e \<in> set (activeKeys s))
                               \<and> (\<not> active e \<longrightarrow> key e \<in> set (inactiveKeys s))"
    by (auto simp: a i)
  have dis: "distinct (map key (entries s)) \<longrightarrow>
          set (activeKeys s) \<inter> set (inactiveKeys s) = {}
          \<and> (\<forall>e \<in> set (entries s). (key e \<in> set (activeKeys s)) = active e
                                    \<and> (key e \<in> set (inactiveKeys s)) = (\<not> active e))"
    unfolding a i
    using disjoint_keys [of "entries s"] key_in_active_iff [of "entries s"]
      key_in_inactive_iff [of "entries s"] by blast
  show ?thesis
    unfolding Let_def s_def [symmetric]
    using a i len sub mem dis by blast
qed

theorem keys_partition_registry_witness:
  "distinct (map key (entries stateBoldItalic))
   \<and> activeKeys stateBoldItalic = [''simple spans'']
   \<and> inactiveKeys stateBoldItalic = [''bold'', ''italic'']
   \<and> set (activeKeys stateBoldItalic) \<inter> set (inactiveKeys stateBoldItalic) = {}"
proof -
  have d: "distinct (map key (entries stateBoldItalic))"
    by (simp add: stateBoldItalic_simps)
  have "set (activeKeys stateBoldItalic) \<inter> set (inactiveKeys stateBoldItalic) = {}"
    using d keys_partition_registry
      [of "[Register (entry ''bold'' True False), Register (entry ''italic'' True True),
            Flush, ItemClick False 2]" emptyState]
    unfolding Let_def stateBoldItalic_def [symmetric] by blast
  with d show ?thesis by (simp add: stateBoldItalic_simps)
qed

section \<open>The call of the surrounder\<close>




section \<open>The built-in entry\<close>

text \<open>
  Claim C7. The initialisation of the component appends to the registry one entry with
  key and name \<open>simple spans\<close>, \<open>show\<close> false and \<open>active\<close> true; the entries registered
  before are unchanged and keep their order. When the registry was empty, \<open>activeKeys\<close>
  is the one key \<open>simple spans\<close> and \<open>inactiveKeys\<close> is empty.
\<close>

theorem init_appends_builtin:
  assumes "allocated s0"
  shows "removeFormats (init s0) = removeFormats s0 @ [nextRef s0]
    \<and> heap (init s0) (nextRef s0)
        = \<lparr>key = ''simple spans'', name = ''simple spans'', show_f = False, active = True\<rparr>
    \<and> (\<forall>r \<in> set (removeFormats s0). heap (init s0) r = heap s0 r)
    \<and> entries (init s0) = entries s0 @ [builtinEntry]
    \<and> (removeFormats s0 = [] \<longrightarrow>
          activeKeys (init s0) = [''simple spans''] \<and> inactiveKeys (init s0) = [])"
proof -
  have fresh: "\<forall>r \<in> set (removeFormats s0). r \<noteq> nextRef s0"
    using allocatedD [OF assms] by auto
  have sy: "synced (init s0)" by (rule synced_init)
  have e: "entries (init s0) = entries s0 @ [builtinEntry]"
    using fresh by (simp add: entries_def)
  have k: "removeFormats s0 = [] \<longrightarrow>
          activeKeys (init s0) = [''simple spans''] \<and> inactiveKeys (init s0) = []"
    using sy e by (simp add: synced_def entries_def builtinEntry_def key_const_def)
  show ?thesis
    using fresh e k by (simp add: builtinEntry_def key_const_def)
qed

theorem init_appends_builtin_witness:
  "allocated stateAB
   \<and> removeFormats (init stateAB) = [0, 1, 2]
   \<and> map key (entries (init stateAB)) = [''A'', ''B'', ''simple spans'']
   \<and> allocated emptyState
   \<and> activeKeys (init emptyState) = [''simple spans'']
   \<and> inactiveKeys (init emptyState) = []"
proof -
  have a1: "allocated stateAB"
    by (simp add: allocated_def stateAB_def emptyState_def)
  have a2: "allocated emptyState"
    by (simp add: allocated_def emptyState_def)
  have n: "nextRef stateAB = 2" "removeFormats emptyState = []"
    by (simp_all add: stateAB_def emptyState_def)
  from init_appends_builtin [OF a1] init_appends_builtin [OF a2] a1 a2 n
  show ?thesis
    by (simp add: stateAB_simps entries_def entry_def builtinEntry_def key_const_def)
qed

text \<open>
  The built-in entry, at reference 0, and one visible entry, at reference 1: a click on
  the visible entry with the modifier held does not set the built-in entry's \<open>active\<close>
  flag to false.
\<close>

theorem deselect_all_keeps_builtin_counterexample:
  "nextRef emptyState = 0
   \<and> heap (init emptyState) 0 = builtinEntry
   \<and> showFormats (run [Register (entry ''bold'' True True), Flush] (init emptyState)) = [1]
   \<and> \<not> (active (heap (run [Register (entry ''bold'' True True), Flush, ItemClick True 1]
                         (init emptyState)) 0) = False)"
  by (simp add: init_def register_def set_removeFormats_def reactive_def flush_def
      onItemClick_def emptyState_def entry_def builtinEntry_def)

lemma builtin_invariant:
  "b < nextRef s \<Longrightarrow> b \<in> set (removeFormats s) \<Longrightarrow> heap s b = builtinEntry
     \<Longrightarrow> b \<notin> set (showFormats s) \<Longrightarrow> offered es s
     \<Longrightarrow> heap (run es s) b = builtinEntry \<and> b \<in> set (removeFormats (run es s))
         \<and> b \<notin> set (showFormats (run es s))"
proof (induction es arbitrary: s)
  case Nil
  then show ?case by simp
next
  case (Cons e es)
  have "b < nextRef (step e s) \<and> b \<in> set (removeFormats (step e s))
        \<and> heap (step e s) b = builtinEntry \<and> b \<notin> set (showFormats (step e s))
        \<and> offered es (step e s)"
  proof (cases e)
    case (Register x)
    with Cons.prems show ?thesis by simp
  next
    case (ItemClick alt f)
    with Cons.prems have "f \<in> set (showFormats s)" by simp
    with Cons.prems(4) have ne: "b \<noteq> f" by auto
    from ItemClick Cons.prems ne show ?thesis by (simp add: heap_onItemClick)
  next
    case Remove
    with Cons.prems show ?thesis by simp
  next
    case (Active v)
    with Cons.prems show ?thesis by simp
  next
    case Mount
    with Cons.prems show ?thesis by simp
  next
    case Flush
    with Cons.prems show ?thesis
      by (simp add: flush_def reactive_def builtinEntry_def)
  qed
  with Cons.IH [of "step e s"] show ?case by simp
qed

text \<open>
  Claim C8, amended. The built-in entry is never listed in the menu, and no sequence of
  registrations, calls of \<open>remove\<close>, emissions, flushes and clicks on listed entries, with
  or without the modifier, changes it: it stays active. The loop run with the modifier
  held goes through the visible entries only.
\<close>

theorem builtin_stays_active:
  assumes "offered es (init s0)"
  shows "heap (run es (init s0)) (nextRef s0)
           = \<lparr>key = ''simple spans'', name = ''simple spans'', show_f = False, active = True\<rparr>
    \<and> active (heap (run es (init s0)) (nextRef s0))
    \<and> nextRef s0 \<in> set (removeFormats (run es (init s0)))
    \<and> nextRef s0 \<notin> set (showFormats (run es (init s0)))"
proof -
  have "nextRef s0 \<notin> set (showFormats (init s0))"
    using synced_showFormats [OF synced_init, of "nextRef s0" s0]
    by (simp add: builtinEntry_def)
  with assms have "heap (run es (init s0)) (nextRef s0) = builtinEntry
     \<and> nextRef s0 \<in> set (removeFormats (run es (init s0)))
     \<and> nextRef s0 \<notin> set (showFormats (run es (init s0)))"
    by (intro builtin_invariant) simp_all
  then show ?thesis by (simp add: builtinEntry_def key_const_def)
qed

theorem builtin_stays_active_witness:
  "offered [Register (entry ''bold'' True True), Register (entry ''italic'' True True), Flush,
            ItemClick True 2, Flush, ItemClick False 1, ItemClick True 1] (init emptyState)
   \<and> active (heap (run [Register (entry ''bold'' True True),
                         Register (entry ''italic'' True True), Flush,
                         ItemClick True 2, Flush, ItemClick False 1, ItemClick True 1]
                     (init emptyState)) 0)"
proof -
  have o: "offered [Register (entry ''bold'' True True), Register (entry ''italic'' True True),
            Flush, ItemClick True 2, Flush, ItemClick False 1, ItemClick True 1]
            (init emptyState)"
    by (simp add: flush_def reactive_def heap_onItemClick emptyState_def entry_def)
  have n: "nextRef emptyState = 0" by (simp add: emptyState_def)
  from builtin_stays_active [OF o] o n show ?thesis by simp
qed

section \<open>The disabled flag\<close>

lemma surrounderActive_run:
  "surrounderActive (run es s) = last (surrounderActive s # emitted es)"
proof (induction es arbitrary: s)
  case Nil
  show ?case by simp
next
  case (Cons e es)
  show ?case by (cases e) (simp_all add: Cons.IH)
qed

lemma subscribed_step: "subscribed s \<Longrightarrow> subscribed (step e s)"
  by (cases e) simp_all

lemma subscribed_run: "subscribed s \<or> Mount \<in> set es \<Longrightarrow> subscribed (run es s)"
proof (induction es arbitrary: s)
  case Nil
  then show ?case by simp
next
  case (Cons e es)
  show ?case
  proof (cases "e = Mount")
    case True
    then show ?thesis using Cons.IH [of "step e s"] by simp
  next
    case False
    with Cons.prems have "subscribed (step e s) \<or> Mount \<in> set es"
      by (auto simp: subscribed_step)
    then show ?thesis using Cons.IH [of "step e s"] by simp
  qed
qed

lemma mirror_step:
  "(subscribed s \<longrightarrow> disabled s = Some (\<not> surrounderActive s))
   \<Longrightarrow> subscribed (step e s) \<longrightarrow> disabled (step e s) = Some (\<not> surrounderActive (step e s))"
  by (cases e) simp_all

lemma mirror_run:
  "(subscribed s \<longrightarrow> disabled s = Some (\<not> surrounderActive s))
   \<Longrightarrow> subscribed (run es s) \<longrightarrow> disabled (run es s) = Some (\<not> surrounderActive (run es s))"
proof (induction es arbitrary: s)
  case Nil
  then show ?case by simp
next
  case (Cons e es)
  from Cons.IH [OF mirror_step [OF Cons.prems, of e]] show ?case by simp
qed

lemma unsubscribed_run:
  "\<not> subscribed s \<Longrightarrow> Mount \<notin> set es
   \<Longrightarrow> \<not> subscribed (run es s) \<and> disabled (run es s) = disabled s"
proof (induction es arbitrary: s)
  case Nil
  then show ?case by simp
next
  case (Cons e es)
  from Cons.prems have "\<not> subscribed (step e s) \<and> disabled (step e s) = disabled s"
    by (cases e) simp_all
  with Cons.IH [of "step e s"] Cons.prems show ?case by simp
qed

text \<open>Until the component mounts, \<open>disabled\<close> stays undefined, whatever is emitted.\<close>

lemma disabled_before_mount:
  "Mount \<notin> set es \<Longrightarrow> disabled (run es (init s0)) = None"
  using unsubscribed_run [of "init s0" es] by simp

text \<open>
  Claim C9. Once the component has mounted, and with it subscribed to the surrounder's
  \<open>active\<close> store, \<open>disabled\<close> is the negation of the value the store emitted last, or of
  the value the store had when nothing has been emitted: after every emission, and
  whatever other events happen in between, only the latest value counts.
\<close>

theorem disabled_mirrors_active:
  assumes "Mount \<in> set es"
  shows "disabled (run es (init s0)) = Some (\<not> last (surrounderActive s0 # emitted es))
    \<and> disabled (run (es @ [Active v]) (init s0)) = Some (\<not> v)"
proof -
  have m: "subscribed (init s0) \<longrightarrow> disabled (init s0) = Some (\<not> surrounderActive (init s0))"
    by simp
  have "subscribed (run es (init s0))"
    using assms by (simp add: subscribed_run)
  with mirror_run [OF m, of es]
  have a: "disabled (run es (init s0)) = Some (\<not> last (surrounderActive s0 # emitted es))"
    by (simp add: surrounderActive_run)
  have "subscribed (run (es @ [Active v]) (init s0))"
    using assms by (simp add: subscribed_run)
  with mirror_run [OF m, of "es @ [Active v]"]
  have "disabled (run (es @ [Active v]) (init s0))
      = Some (\<not> surrounderActive (run (es @ [Active v]) (init s0)))"
    by simp
  moreover have "emitted (es @ [Active v]) = emitted es @ [v]"
    by (induction es rule: emitted.induct) simp_all
  ultimately have "disabled (run (es @ [Active v]) (init s0)) = Some (\<not> v)"
    by (simp add: surrounderActive_run)
  with a show ?thesis by simp
qed

theorem disabled_mirrors_active_witness:
  "Mount \<in> set [Mount, Active True, ItemClick False 0, Active False, Remove]
   \<and> disabled (run [Mount, Active True, ItemClick False 0, Active False, Remove]
                 (init emptyState)) = Some True
   \<and> disabled (run [Mount, Active True] (init emptyState)) = Some False
   \<and> disabled (run [Mount] (init emptyState)) = Some True"
proof -
  have m1: "Mount \<in> set [Mount, Active True, ItemClick False 0, Active False, Remove]"
    by simp
  have m2: "Mount \<in> set [Mount]" by simp
  have v: "surrounderActive emptyState = False" by (simp add: emptyState_def)
  from disabled_mirrors_active [OF m1, of emptyState]
    disabled_mirrors_active [OF m2, of emptyState True] m1 v
  show ?thesis by simp
qed

end
